theory Spec2Isabelle
  imports Main "HOL-Library.Word"
begin

unbundle bit_operations_syntax

section \<open>The LHDC source encoder: pacing and packetisation\<close>

text \<open>
  The development embeds the frame pacer and the packet assembler of the LHDC A2DP
  encoder. Two variants of the encoder are in the repository: the fragmenting one in
  \<^verbatim>\<open>stack/a2dp/a2dp_vendor_lhdc_encoder.cc\<close>, whose functions keep their names here, and
  an earlier one that closes one packet per codec output, whose functions carry the
  suffix \<open>_p0\<close>. C unsigned integers are words of their width; values of type
  \<^verbatim>\<open>int\<close> are HOL integers, which is what C computes whenever the value fits.
\<close>

subsection \<open>Data\<close>

record tA2DP_FEEDING_PARAMS =
  sample_rate :: "32 word"
  bits_per_sample :: "8 word"
  channel_count :: "8 word"

record tA2DP_LHDC_FEEDING_STATE =
  counter :: "32 word"
  bytes_per_tick :: "32 word"
  last_frame_us :: "64 word"

record a2dp_lhdc_encoder_stats_t =
  media_read_total_expected_packets :: "64 word"
  media_read_total_expected_reads_count :: "64 word"
  media_read_total_expected_read_bytes :: "64 word"
  media_read_total_dropped_packets :: "64 word"
  media_read_total_actual_reads_count :: "64 word"
  media_read_total_actual_read_bytes :: "64 word"

text \<open>
  The control block. \<open>lhdc_handle\<close> is the codec handle as an address, 0 for NULL;
  \<open>latency_mode_index\<close> is the field of \<^verbatim>\<open>lhdc_encoder_params\<close> the assembler reads.
\<close>

record tA2DP_LHDC_ENCODER_CB =
  TxAaMtuSize :: "16 word"
  timestamp :: "32 word"
  lhdc_handle :: nat
  has_lhdc_handle :: bool
  feeding_params :: tA2DP_FEEDING_PARAMS
  latency_mode_index :: "32 word"
  lhdc_feeding_state :: tA2DP_LHDC_FEEDING_STATE
  stats :: a2dp_lhdc_encoder_stats_t
  buf_seq :: "32 word"

text \<open>What C leaves undefined, and the model reports instead of hiding.\<close>

datatype fault = DivisionByZero | PacketArrayOverflow | NegativeCopyLength

subsection \<open>The pacer\<close>

definition A2DP_LHDC_ENCODER_INTERVAL_MS :: nat where
  "A2DP_LHDC_ENCODER_INTERVAL_MS = 20"

text \<open>
  \<^verbatim>\<open>A2DP_LHDC_MEDIA_BYTES_PER_FRAME\<close> is 512 in the fragmenting variant and 128 in the
  earlier one; the pacer is otherwise the same text, so it takes the constant as \<open>mbpf\<close>.
\<close>

definition A2DP_LHDC_MEDIA_BYTES_PER_FRAME :: nat where
  "A2DP_LHDC_MEDIA_BYTES_PER_FRAME = 512"

definition A2DP_LHDC_MEDIA_BYTES_PER_FRAME_p0 :: nat where
  "A2DP_LHDC_MEDIA_BYTES_PER_FRAME_p0 = 128"

definition a2dp_vendor_lhdc_feeding_reset :: "tA2DP_LHDC_ENCODER_CB \<Rightarrow> tA2DP_LHDC_ENCODER_CB" where
  "a2dp_vendor_lhdc_feeding_reset cb =
     (let fp = feeding_params cb;
          bpt = (sample_rate fp * ucast (bits_per_sample fp) div 8
                   * ucast (channel_count fp)
                   * of_nat A2DP_LHDC_ENCODER_INTERVAL_MS) div 1000
      in cb\<lparr>lhdc_feeding_state :=
               \<lparr>counter = 0, bytes_per_tick = bpt, last_frame_us = 0\<rparr>,
             buf_seq := 0\<rparr>)"

definition a2dp_vendor_lhdc_feeding_flush :: "tA2DP_LHDC_ENCODER_CB \<Rightarrow> tA2DP_LHDC_ENCODER_CB" where
  "a2dp_vendor_lhdc_feeding_flush cb =
     cb\<lparr>lhdc_feeding_state := (lhdc_feeding_state cb)\<lparr>counter := 0\<rparr>\<rparr>"

definition pcm_bytes_per_frame :: "nat \<Rightarrow> tA2DP_LHDC_ENCODER_CB \<Rightarrow> 32 word" where
  "pcm_bytes_per_frame mbpf cb =
     of_nat (mbpf * unat (channel_count (feeding_params cb))
                  * unat (bits_per_sample (feeding_params cb)) div 8)"

text \<open>
  The result is the new control block with \<^verbatim>\<open>*num_of_iterations\<close> and
  \<^verbatim>\<open>*num_of_frames\<close>. The product of \<open>bytes_per_tick\<close> and \<open>us_this_tick\<close> is a
  \<^verbatim>\<open>uint32_t\<close> product and wraps; \<open>us_this_tick\<close> is the 64-bit difference cut to 32
  bits; \<open>nof\<close> is \<open>result\<close> cut to 8 bits. Dividing by a zero frame size traps.
\<close>

definition a2dp_lhdc_get_num_frame_iteration ::
  "nat \<Rightarrow> tA2DP_LHDC_ENCODER_CB \<Rightarrow> 64 word \<Rightarrow> fault + (tA2DP_LHDC_ENCODER_CB \<times> 8 word \<times> 8 word)" where
  "a2dp_lhdc_get_num_frame_iteration mbpf cb timestamp_us =
     (let noi = (1 :: 8 word);
          bpf = pcm_bytes_per_frame mbpf cb;
          fs = lhdc_feeding_state cb;
          now_us = timestamp_us;
          us_this_tick =
            (if last_frame_us fs \<noteq> 0 then (ucast (now_us - last_frame_us fs) :: 32 word)
             else of_nat (A2DP_LHDC_ENCODER_INTERVAL_MS * 1000));
          fs1 = fs\<lparr>last_frame_us := now_us\<rparr>;
          fs2 = fs1\<lparr>counter := counter fs1
                   + bytes_per_tick fs1 * us_this_tick
                       div of_nat (A2DP_LHDC_ENCODER_INTERVAL_MS * 1000)\<rparr>
      in if bpf = 0 then Inl DivisionByZero
         else
           let result = counter fs2 div bpf;
               fs3 = fs2\<lparr>counter := counter fs2 - result * bpf\<rparr>;
               nof = (ucast result :: 8 word)
           in Inr (cb\<lparr>lhdc_feeding_state := fs3\<rparr>, noi, nof))"

text \<open>
  A run of the pacer over a sequence of tick timestamps, with the frame counts it
  reported. The three definitions after it state the budget in natural numbers:
  the microseconds a tick covers, the PCM bytes it earns, and when the 32-bit and 8-bit
  quantities of the pacer hold these numbers without wrapping.
\<close>

fun pace_ticks ::
  "nat \<Rightarrow> tA2DP_LHDC_ENCODER_CB \<Rightarrow> 64 word list \<Rightarrow> fault + (tA2DP_LHDC_ENCODER_CB \<times> 8 word list)" where
  "pace_ticks mbpf cb [] = Inr (cb, [])"
| "pace_ticks mbpf cb (t # ts) =
     (case a2dp_lhdc_get_num_frame_iteration mbpf cb t of
        Inl e \<Rightarrow> Inl e
      | Inr (cb1, noi, nof) \<Rightarrow>
          (case pace_ticks mbpf cb1 ts of
             Inl e \<Rightarrow> Inl e
           | Inr (cb2, nofs) \<Rightarrow> Inr (cb2, nof # nofs)))"

definition elapsed_us :: "64 word \<Rightarrow> 64 word \<Rightarrow> nat" where
  "elapsed_us prev now =
     (if prev \<noteq> 0 then unat (now - prev) else A2DP_LHDC_ENCODER_INTERVAL_MS * 1000)"

definition earned_bytes :: "tA2DP_LHDC_ENCODER_CB \<Rightarrow> 64 word \<Rightarrow> nat" where
  "earned_bytes cb now =
     unat (bytes_per_tick (lhdc_feeding_state cb))
       * elapsed_us (last_frame_us (lhdc_feeding_state cb)) now
       div (A2DP_LHDC_ENCODER_INTERVAL_MS * 1000)"

fun earned_total :: "nat \<Rightarrow> 64 word \<Rightarrow> 64 word list \<Rightarrow> nat" where
  "earned_total bpt prev [] = 0"
| "earned_total bpt prev (t # ts) =
     bpt * elapsed_us prev t div (A2DP_LHDC_ENCODER_INTERVAL_MS * 1000) + earned_total bpt t ts"

definition tick_in_range :: "nat \<Rightarrow> tA2DP_LHDC_ENCODER_CB \<Rightarrow> 64 word \<Rightarrow> bool" where
  "tick_in_range mbpf cb now =
     (pcm_bytes_per_frame mbpf cb \<noteq> 0
      \<and> unat (bytes_per_tick (lhdc_feeding_state cb))
           * elapsed_us (last_frame_us (lhdc_feeding_state cb)) now < 2 ^ 32
      \<and> unat (counter (lhdc_feeding_state cb)) + earned_bytes cb now < 2 ^ 32
      \<and> (unat (counter (lhdc_feeding_state cb)) + earned_bytes cb now)
            div unat (pcm_bytes_per_frame mbpf cb) < 256)"

fun ticks_in_range :: "nat \<Rightarrow> tA2DP_LHDC_ENCODER_CB \<Rightarrow> 64 word list \<Rightarrow> bool" where
  "ticks_in_range mbpf cb [] = True"
| "ticks_in_range mbpf cb (t # ts) =
     (tick_in_range mbpf cb t \<and>
      (case a2dp_lhdc_get_num_frame_iteration mbpf cb t of
         Inl e \<Rightarrow> False
       | Inr (cb1, noi, nof) \<Rightarrow> ticks_in_range mbpf cb1 ts))"

subsection \<open>Buffers, the environment and the constants of absent headers\<close>

text \<open>
  A transport buffer: the three header fields the encoder writes, the 32-bit word it
  stores at the start of the data area, and the bytes stored from \<open>offset\<close> on.
\<close>

record BT_HDR =
  offset :: "16 word"
  len :: "16 word"
  layer_specific :: "16 word"
  media_timestamp :: "32 word"
  payload :: "8 word list"

text \<open>
  Macros of headers that are not among the sources are parameters:
  \<^verbatim>\<open>A2DP_LHDC_HDR_NUM_SHIFT\<close>, \<^verbatim>\<open>LHDCBT_ENC_BLOCK_SIZE\<close>, \<^verbatim>\<open>AVDT_MEDIA_OFFSET\<close> and the
  build switch \<^verbatim>\<open>BTA_AV_CO_CP_SCMS_T\<close>.
\<close>

record build_consts =
  A2DP_LHDC_HDR_NUM_SHIFT :: nat
  LHDCBT_ENC_BLOCK_SIZE :: nat
  AVDT_MEDIA_OFFSET :: nat
  BTA_AV_CO_CP_SCMS_T :: bool

definition A2DP_LHDC_MPL_HDR_LEN :: nat where
  "A2DP_LHDC_MPL_HDR_LEN = 1"

definition A2DP_LHDC_HDR_F_MSK :: "32 word" where
  "A2DP_LHDC_HDR_F_MSK = 0x80"

definition A2DP_LHDC_HDR_S_MSK :: "32 word" where
  "A2DP_LHDC_HDR_S_MSK = 0x40"

definition A2DP_LHDC_HDR_L_MSK :: "32 word" where
  "A2DP_LHDC_HDR_L_MSK = 0x20"

definition A2DP_LHDC_OFFSET :: "build_consts \<Rightarrow> nat" where
  "A2DP_LHDC_OFFSET K =
     (if BTA_AV_CO_CP_SCMS_T K then AVDT_MEDIA_OFFSET K + A2DP_LHDC_MPL_HDR_LEN + 1
      else AVDT_MEDIA_OFFSET K + A2DP_LHDC_MPL_HDR_LEN)"

text \<open>
  What one call of the codec of the fragmenting variant gives back: a stream of
  \<open>out_len\<close> bytes in \<open>write_buffer\<close>, or a return value that is zero or negative.
\<close>

datatype lhdc_ret = Stream "8 word list" | NonPositive nat

fun out_len_of :: "lhdc_ret \<Rightarrow> int" where
  "out_len_of (Stream bs) = int (length bs)"
| "out_len_of (NonPositive n) = - int n"

fun write_buffer_of :: "lhdc_ret \<Rightarrow> 8 word list" where
  "write_buffer_of (Stream bs) = bs"
| "write_buffer_of (NonPositive n) = []"

text \<open>
  The collaborators are oracles indexed by the number of the call: the bytes the PCM
  source returns, what the codec returns, whether \<^verbatim>\<open>osi_malloc\<close> gives a buffer, and
  what the sink answers. The world counts the calls and keeps the arguments of every
  call of the sink, in order.
\<close>

record 'e env =
  read_callback :: "nat \<Rightarrow> 32 word"
  lhdc_encode_func :: "nat \<Rightarrow> 'e"
  osi_malloc :: "nat \<Rightarrow> bool"
  enqueue_callback :: "nat \<Rightarrow> bool"

record world =
  reads :: nat
  encodes :: nat
  mallocs :: nat
  frees :: nat
  enqueues :: "(BT_HDR \<times> nat) list"

datatype ('a, 'r) flow = Next 'a | Return 'r | Fault fault

subsection \<open>The PCM source adapter\<close>

definition read_size :: "build_consts \<Rightarrow> tA2DP_LHDC_ENCODER_CB \<Rightarrow> 32 word" where
  "read_size K cb =
     of_nat (LHDCBT_ENC_BLOCK_SIZE K * unat (channel_count (feeding_params cb))
               * unat (bits_per_sample (feeding_params cb)) div 8)"

definition a2dp_lhdc_read_feeding ::
  "build_consts \<Rightarrow> 'e env \<Rightarrow> tA2DP_LHDC_ENCODER_CB \<times> world \<Rightarrow> bool \<times> tA2DP_LHDC_ENCODER_CB \<times> world" where
  "a2dp_lhdc_read_feeding K E s =
     (case s of (cb, w) \<Rightarrow>
        let st1 = (stats cb)
              \<lparr>media_read_total_expected_reads_count :=
                 media_read_total_expected_reads_count (stats cb) + 1,
               media_read_total_expected_read_bytes :=
                 media_read_total_expected_read_bytes (stats cb) + ucast (read_size K cb)\<rparr>;
            nb_byte_read = read_callback E (reads w);
            w1 = w\<lparr>reads := Suc (reads w)\<rparr>;
            st2 = st1\<lparr>media_read_total_actual_read_bytes :=
                       media_read_total_actual_read_bytes st1 + ucast nb_byte_read\<rparr>;
            st3 = st2\<lparr>media_read_total_actual_reads_count :=
                       media_read_total_actual_reads_count st2 + 1\<rparr>
        in if nb_byte_read < read_size K cb then
             (if nb_byte_read = 0 then (False, cb\<lparr>stats := st2\<rparr>, w1)
              else (True, cb\<lparr>stats := st3\<rparr>, w1))
           else (True, cb\<lparr>stats := st3\<rparr>, w1))"

subsection \<open>The packet assembler of the fragmenting variant\<close>

definition bt_buf_new :: "build_consts \<Rightarrow> 'e env \<Rightarrow> world \<Rightarrow> BT_HDR option \<times> world" where
  "bt_buf_new K E w =
     (if osi_malloc E (mallocs w)
      then (Some \<lparr>offset = of_nat (A2DP_LHDC_OFFSET K), len = 0, layer_specific = 0,
                  media_timestamp = 0, payload = []\<rparr>,
            w\<lparr>mallocs := Suc (mallocs w)\<rparr>)
      else (None, w\<lparr>mallocs := Suc (mallocs w)\<rparr>))"

definition max_mtu_len :: "build_consts \<Rightarrow> tA2DP_LHDC_ENCODER_CB \<Rightarrow> 32 word" where
  "max_mtu_len K cb =
     (if BTA_AV_CO_CP_SCMS_T K
      then word_of_int (uint (TxAaMtuSize cb) - int A2DP_LHDC_MPL_HDR_LEN - 1)
      else word_of_int (uint (TxAaMtuSize cb) - int A2DP_LHDC_MPL_HDR_LEN))"

text \<open>
  The locals of \<^verbatim>\<open>a2dp_lhdc_encode_frames\<close> that live across iterations. \<open>p_btBufs\<close>
  holds the entries \<open>0 ..< bt_buf_num\<close> of the array of 16 pointers, so \<open>bt_buf_num\<close>
  is its length, and a store at index 16 or beyond is a fault.
\<close>

record frag =
  p_buf :: "BT_HDR option"
  p_btBufs :: "BT_HDR list"
  out_offset :: int
  out_len :: int

text \<open>
  The body of \<^verbatim>\<open>while (out_len > 0)\<close> from the \<^verbatim>\<open>memcpy\<close> on: \<open>bytes\<close> bytes of
  \<open>write_buffer\<close> are appended to the open buffer, which is stored in the array and
  closed when it has reached \<open>max_mtu_len\<close>.
\<close>

definition store_bytes ::
  "32 word \<Rightarrow> 8 word list \<Rightarrow> frag \<Rightarrow> world \<Rightarrow> BT_HDR \<Rightarrow> int \<Rightarrow> (frag \<times> world, world) flow" where
  "store_bytes mml write_buffer fr w b bytes =
     (let b1 = b\<lparr>payload := payload b
                     @ take (nat bytes) (drop (nat (out_offset fr)) write_buffer),
                  len := len b + word_of_int bytes\<rparr>;
          fr1 = fr\<lparr>out_offset := out_offset fr + bytes, out_len := out_len fr - bytes\<rparr>
      in if mml \<le> ucast (len b1) then
           (if length (p_btBufs fr1) < 16
            then Next (fr1\<lparr>p_btBufs := p_btBufs fr1 @ [b1], p_buf := None\<rparr>, w)
            else Fault PacketArrayOverflow)
         else Next (fr1\<lparr>p_buf := Some b1\<rparr>, w))"

text \<open>
  One iteration of \<^verbatim>\<open>while (out_len > 0)\<close>. A buffer that cannot be allocated ends
  the function; a negative \<open>bytes\<close> would reach \<^verbatim>\<open>memcpy\<close> as a huge length.
\<close>

definition copy_step ::
  "build_consts \<Rightarrow> 'e env \<Rightarrow> 32 word \<Rightarrow> 8 word list \<Rightarrow> frag \<times> world \<Rightarrow> (frag \<times> world, world) flow" where
  "copy_step K E mml write_buffer s =
     (case (case p_buf (fst s) of None \<Rightarrow> bt_buf_new K E (snd s) | Some b \<Rightarrow> (Some b, snd s)) of
        (None, w1) \<Rightarrow> Return w1
      | (Some b, w1) \<Rightarrow>
          let space = sint (mml - ucast (len b));
              bytes = (if out_len (fst s) < space then out_len (fst s) else space)
          in if bytes < 0 then Fault NegativeCopyLength
             else store_bytes mml write_buffer (fst s) w1 b bytes)"

function copy_loop ::
  "build_consts \<Rightarrow> 'e env \<Rightarrow> 32 word \<Rightarrow> 8 word list \<Rightarrow> frag \<times> world \<Rightarrow> (frag \<times> world, world) flow" where
  "copy_loop K E mml write_buffer s =
     (if 0 < out_len (fst s) then
        (case copy_step K E mml write_buffer s of
           Next s1 \<Rightarrow> copy_loop K E mml write_buffer s1
         | Return r \<Rightarrow> Return r
         | Fault f \<Rightarrow> Fault f)
      else Next s)"
  by pat_completeness auto
termination
proof (relation "measure (\<lambda>(K, E, mml, write_buffer, s).
          nat (out_len (fst s)) * 17 + (16 - length (p_btBufs (fst s))))")
  show "wf (measure (\<lambda>(K :: build_consts, E :: 'e env, mml :: 32 word, write_buffer :: 8 word list, s :: frag \<times> world).
          nat (out_len (fst s)) * 17 + (16 - length (p_btBufs (fst s)))))"
    by simp
next
  fix K :: build_consts and E :: "'e env" and mml :: "32 word"
    and write_buffer :: "8 word list" and s s1 :: "frag \<times> world"
  assume pos: "0 < out_len (fst s)" and step: "copy_step K E mml write_buffer s = Next s1"
  obtain b w1 where
    buf: "(case p_buf (fst s) of None \<Rightarrow> bt_buf_new K E (snd s) | Some b \<Rightarrow> (Some b, snd s))
            = (Some b, w1)"
    using step unfolding copy_step_def
    by (cases "case p_buf (fst s) of None \<Rightarrow> bt_buf_new K E (snd s) | Some b \<Rightarrow> (Some b, snd s)")
       (auto split: option.splits)
  define space where "space = sint (mml - ucast (len b))"
  define bytes where "bytes = (if out_len (fst s) < space then out_len (fst s) else space)"
  have nonneg: "0 \<le> bytes"
    and stored: "store_bytes mml write_buffer (fst s) w1 b bytes = Next s1"
    using step
    by (simp_all add: copy_step_def buf Let_def space_def bytes_def split: if_splits)
  show "((K, E, mml, write_buffer, s1), (K, E, mml, write_buffer, s))
          \<in> measure (\<lambda>(K, E, mml, write_buffer, s).
               nat (out_len (fst s)) * 17 + (16 - length (p_btBufs (fst s))))"
  proof (cases "bytes = 0")
    case True
    with pos have "space = 0"
      unfolding bytes_def by (auto split: if_splits)
    then have "mml = ucast (len b)"
      unfolding space_def by (simp add: signed_eq_0_iff)
    with True stored pos show ?thesis
      by (auto simp: store_bytes_def Let_def split: if_splits)
  next
    case False
    with nonneg have "0 < bytes" by simp
    moreover have "bytes \<le> out_len (fst s)"
      unfolding bytes_def by simp
    ultimately show ?thesis
      using stored pos by (auto simp: store_bytes_def Let_def split: if_splits)
  qed
qed

declare copy_loop.simps [simp del]

text \<open>
  What an underflow gives back to the pacer: the expression of the source, with
  \<open>nb_frame\<close> the number of frames still to read, the one that failed included.
\<close>

definition underflow_refund :: "build_consts \<Rightarrow> tA2DP_LHDC_ENCODER_CB \<Rightarrow> nat \<Rightarrow> tA2DP_LHDC_ENCODER_CB" where
  "underflow_refund K cb nb_frame =
     cb\<lparr>lhdc_feeding_state := (lhdc_feeding_state cb)
          \<lparr>counter := counter (lhdc_feeding_state cb)
             + of_nat (nb_frame * LHDCBT_ENC_BLOCK_SIZE K
                         * unat (channel_count (feeding_params cb))
                         * unat (bits_per_sample (feeding_params cb)) div 8)\<rparr>\<rparr>"

text \<open>
  \<^verbatim>\<open>while (nb_frame)\<close>: the argument counts the frames still to produce. The return
  value of the codec is used as a length and nothing else: the fragmenting variant has
  no test of the handle and no error path after the call.
\<close>

fun frame_loop ::
  "build_consts \<Rightarrow> lhdc_ret env \<Rightarrow> 32 word \<Rightarrow> nat
     \<Rightarrow> tA2DP_LHDC_ENCODER_CB \<times> world \<times> frag
     \<Rightarrow> (tA2DP_LHDC_ENCODER_CB \<times> world \<times> frag, tA2DP_LHDC_ENCODER_CB \<times> world) flow" where
  "frame_loop K E mml 0 s = Next s"
| "frame_loop K E mml (Suc n) s =
     (case a2dp_lhdc_read_feeding K E (fst s, fst (snd s)) of
        (False, cb1, w1) \<Rightarrow> Next (underflow_refund K cb1 (Suc n), w1, snd (snd s))
      | (True, cb1, w1) \<Rightarrow>
          let r = lhdc_encode_func E (encodes w1);
              w2 = w1\<lparr>encodes := Suc (encodes w1)\<rparr>;
              fr1 = (snd (snd s))\<lparr>out_offset := 0, out_len := out_len_of r\<rparr>
          in (case copy_loop K E mml (write_buffer_of r) (fr1, w2) of
                Next (fr2, w3) \<Rightarrow> frame_loop K E mml n (cb1, w3, fr2)
              | Return w3 \<Rightarrow> Return (cb1, w3)
              | Fault f \<Rightarrow> Fault f))"

text \<open>
  Header tagging. \<open>or_into\<close> is \<^verbatim>\<open>layer_specific |= v\<close> for an \<^verbatim>\<open>int\<close> value \<open>v\<close>:
  the disjunction is formed in 32 bits and cut to the 16 bits of the field.
  \<open>seq_shifted\<close> is the field after \<^verbatim>\<open>layer_specific = buf_seq++\<close> and
  \<^verbatim>\<open>layer_specific <<= 8\<close>.
\<close>

definition or_into :: "16 word \<Rightarrow> 32 word \<Rightarrow> 16 word" where
  "or_into ls v = ucast ((ucast ls :: 32 word) OR v)"

definition seq_shifted :: "32 word \<Rightarrow> 16 word" where
  "seq_shifted seq = ucast (push_bit 8 (ucast (ucast seq :: 16 word) :: 32 word))"

definition frames_shifted :: "build_consts \<Rightarrow> 8 word \<Rightarrow> 32 word" where
  "frames_shifted K nb_frame_org = push_bit (A2DP_LHDC_HDR_NUM_SHIFT K) (ucast nb_frame_org)"

text \<open>The branch \<^verbatim>\<open>bt_buf_num == 1\<close>. The answer of the sink is not looked at.\<close>

definition emit_single ::
  "build_consts \<Rightarrow> 8 word \<Rightarrow> 8 word \<Rightarrow> BT_HDR
     \<Rightarrow> tA2DP_LHDC_ENCODER_CB \<times> world \<Rightarrow> tA2DP_LHDC_ENCODER_CB \<times> world" where
  "emit_single K latency nb_frame_org b s =
     (let cb = fst s; w = snd s;
          ls = or_into (seq_shifted (buf_seq cb)) (ucast latency OR frames_shifted K nb_frame_org);
          b1 = b\<lparr>layer_specific := ls, media_timestamp := timestamp cb\<rparr>
      in (cb\<lparr>buf_seq := buf_seq cb + 1\<rparr>, w\<lparr>enqueues := enqueues w @ [(b1, 1)]\<rparr>))"

text \<open>
  The loop \<^verbatim>\<open>for (i = 0; i < bt_buf_num; i++)\<close> of the other branch, from index \<open>i\<close>
  on, over the buffers not yet handed over.
\<close>

fun emit_fragments ::
  "build_consts \<Rightarrow> 8 word \<Rightarrow> 8 word \<Rightarrow> nat \<Rightarrow> nat \<Rightarrow> BT_HDR list
     \<Rightarrow> tA2DP_LHDC_ENCODER_CB \<times> world \<Rightarrow> tA2DP_LHDC_ENCODER_CB \<times> world" where
  "emit_fragments K latency nb_frame_org bt_buf_num i [] s = s"
| "emit_fragments K latency nb_frame_org bt_buf_num i (b # bs) s =
     (let cb = fst s; w = snd s;
          ls0 = or_into (seq_shifted (buf_seq cb)) (A2DP_LHDC_HDR_F_MSK OR ucast latency);
          ls1 = (if i = 0
                 then or_into ls0 (A2DP_LHDC_HDR_S_MSK OR frames_shifted K nb_frame_org)
                 else if i = bt_buf_num - 1 then or_into ls0 A2DP_LHDC_HDR_L_MSK
                 else ls0);
          b1 = b\<lparr>layer_specific := ls1, media_timestamp := timestamp cb\<rparr>
      in emit_fragments K latency nb_frame_org bt_buf_num (Suc i) bs
           (cb\<lparr>buf_seq := buf_seq cb + 1\<rparr>, w\<lparr>enqueues := enqueues w @ [(b1, 1)]\<rparr>))"

text \<open>
  \<^verbatim>\<open>if (p_buf) { p_btBufs[bt_buf_num] = p_buf; bt_buf_num++; }\<close> after the loop.
\<close>

definition close_last :: "frag \<Rightarrow> fault + BT_HDR list" where
  "close_last fr =
     (case p_buf fr of
        None \<Rightarrow> Inr (p_btBufs fr)
      | Some b \<Rightarrow>
          if length (p_btBufs fr) < 16 then Inr (p_btBufs fr @ [b])
          else Inl PacketArrayOverflow)"

definition a2dp_lhdc_encode_frames ::
  "build_consts \<Rightarrow> lhdc_ret env \<Rightarrow> tA2DP_LHDC_ENCODER_CB \<times> world \<Rightarrow> 8 word
     \<Rightarrow> fault + (tA2DP_LHDC_ENCODER_CB \<times> world)" where
  "a2dp_lhdc_encode_frames K E s nb_frame =
     (let nb_frame_org = nb_frame;
          latency = (ucast (latency_mode_index (fst s)) :: 8 word)
      in case frame_loop K E (max_mtu_len K (fst s)) (unat nb_frame)
                (fst s, snd s, \<lparr>p_buf = None, p_btBufs = [], out_offset = 0, out_len = 0\<rparr>) of
           Fault f \<Rightarrow> Inl f
         | Return r \<Rightarrow> Inr r
         | Next (cb1, w1, fr) \<Rightarrow>
             (case close_last fr of
                Inl f \<Rightarrow> Inl f
              | Inr bufs \<Rightarrow>
                  let s2 = (if length bufs = 1
                            then emit_single K latency nb_frame_org (hd bufs) (cb1, w1)
                            else emit_fragments K latency nb_frame_org (length bufs) 0 bufs (cb1, w1))
                  in Inr ((fst s2)\<lparr>timestamp := timestamp (fst s2)
                              + of_nat (unat nb_frame_org * LHDCBT_ENC_BLOCK_SIZE K)\<rparr>,
                          snd s2)))"

text \<open>The tick entry point: the pacer, then \<open>nb_iterations\<close> passes of the assembler.\<close>

fun encode_passes ::
  "build_consts \<Rightarrow> lhdc_ret env \<Rightarrow> 8 word \<Rightarrow> nat \<Rightarrow> tA2DP_LHDC_ENCODER_CB \<times> world
     \<Rightarrow> fault + (tA2DP_LHDC_ENCODER_CB \<times> world)" where
  "encode_passes K E nb_frame 0 s = Inr s"
| "encode_passes K E nb_frame (Suc n) s =
     (case a2dp_lhdc_encode_frames K E s nb_frame of
        Inl f \<Rightarrow> Inl f
      | Inr s1 \<Rightarrow> encode_passes K E nb_frame n s1)"

definition a2dp_vendor_lhdc_send_frames ::
  "build_consts \<Rightarrow> lhdc_ret env \<Rightarrow> tA2DP_LHDC_ENCODER_CB \<times> world \<Rightarrow> 64 word
     \<Rightarrow> fault + (tA2DP_LHDC_ENCODER_CB \<times> world)" where
  "a2dp_vendor_lhdc_send_frames K E s timestamp_us =
     (case a2dp_lhdc_get_num_frame_iteration A2DP_LHDC_MEDIA_BYTES_PER_FRAME (fst s) timestamp_us of
        Inl f \<Rightarrow> Inl f
      | Inr (cb1, nb_iterations, nb_frame) \<Rightarrow>
          if nb_frame = 0 then Inr (cb1, snd s)
          else encode_passes K E nb_frame (unat nb_iterations) (cb1, snd s))"

subsection \<open>What the assembler holds between iterations\<close>










definition handed_over ::
  "(nat \<Rightarrow> 32 word \<Rightarrow> 16 word) \<Rightarrow> tA2DP_LHDC_ENCODER_CB \<Rightarrow> nat \<Rightarrow> BT_HDR list \<Rightarrow> (BT_HDR \<times> nat) list" where
  "handed_over tag cb i bufs =
     map (\<lambda>(j, b). (b\<lparr>layer_specific := tag j (buf_seq cb - of_nat i + of_nat j),
                          media_timestamp := timestamp cb\<rparr>, 1))
       (enumerate i bufs)"




subsection \<open>Concrete sessions used by the examples\<close>

definition stats0 :: a2dp_lhdc_encoder_stats_t where
  "stats0 = \<lparr>media_read_total_expected_packets = 0, media_read_total_expected_reads_count = 0,
              media_read_total_expected_read_bytes = 0, media_read_total_dropped_packets = 0,
              media_read_total_actual_reads_count = 0, media_read_total_actual_read_bytes = 0\<rparr>"

text \<open>96 kHz, 24 bit, stereo, after a feeding reset: 11520 bytes per tick, 3072 per frame.\<close>

definition cb_96k :: tA2DP_LHDC_ENCODER_CB where
  "cb_96k = \<lparr>TxAaMtuSize = 664, timestamp = 1000, lhdc_handle = 1, has_lhdc_handle = True,
             feeding_params = \<lparr>sample_rate = 96000, bits_per_sample = 24, channel_count = 2\<rparr>,
             latency_mode_index = 1,
             lhdc_feeding_state = \<lparr>counter = 0, bytes_per_tick = 11520, last_frame_us = 0\<rparr>,
             stats = stats0, buf_seq = 0\<rparr>"

text \<open>
  A build with \<^verbatim>\<open>A2DP_LHDC_HDR_NUM_SHIFT\<close> 2 and blocks of 512 samples; a world in which
  nothing has been called yet; a collaborator set whose reads are full, whose buffers
  are always granted and whose sink accepts, around a codec that returns \<open>out\<close> at
  call \<open>i\<close>.
\<close>

definition K_ex :: build_consts where
  "K_ex = \<lparr>A2DP_LHDC_HDR_NUM_SHIFT = 2, LHDCBT_ENC_BLOCK_SIZE = 512,
            AVDT_MEDIA_OFFSET = 23, BTA_AV_CO_CP_SCMS_T = False\<rparr>"

definition w_ex :: world where
  "w_ex = \<lparr>reads = 0, encodes = 0, mallocs = 0, frees = 0, enqueues = []\<rparr>"

definition E_ex :: "(nat \<Rightarrow> 'e) \<Rightarrow> 'e env" where
  "E_ex out = \<lparr>read_callback = (\<lambda>i. 3072), lhdc_encode_func = out,
               osi_malloc = (\<lambda>i. True), enqueue_callback = (\<lambda>i. True)\<rparr>"

subsection \<open>Properties of the pacer\<close>

lemma feeding_reset_96k:
  "a2dp_vendor_lhdc_feeding_reset (cb_96k\<lparr>buf_seq := 7\<rparr>) = cb_96k"
  by (simp add: a2dp_vendor_lhdc_feeding_reset_def cb_96k_def A2DP_LHDC_ENCODER_INTERVAL_MS_def)

lemma us_product:
  fixes b :: "32 word" and d :: "64 word"
  assumes "unat b * unat d < 2 ^ 32"
  shows "unat (b * (ucast d :: 32 word)) = unat b * unat d"
proof (cases "b = 0")
  case True
  then show ?thesis by simp
next
  case False
  then have "0 < unat b" by (simp add: unat_gt_0)
  then have "unat d \<le> unat b * unat d" by (cases "unat b") simp_all
  then have "unat d < 2 ^ 32" by (rule le_less_trans [OF _ assms])
  then have "unat (ucast d :: 32 word) = unat d"
    by (simp add: unsigned_ucast_eq take_bit_nat_eq_self)
  with assms show ?thesis
    by (simp add: unat_word_ariths)
qed

lemma pacer_tick:
  assumes "tick_in_range mbpf cb t"
  shows "\<exists>cb' nof. a2dp_lhdc_get_num_frame_iteration mbpf cb t = Inr (cb', 1, nof)
           \<and> unat nof * unat (pcm_bytes_per_frame mbpf cb) + unat (counter (lhdc_feeding_state cb'))
               = unat (counter (lhdc_feeding_state cb)) + earned_bytes cb t
           \<and> last_frame_us (lhdc_feeding_state cb') = t
           \<and> bytes_per_tick (lhdc_feeding_state cb') = bytes_per_tick (lhdc_feeding_state cb)
           \<and> feeding_params cb' = feeding_params cb"
proof -
  let ?fs = "lhdc_feeding_state cb"
  let ?F = "pcm_bytes_per_frame mbpf cb"
  let ?us = "if last_frame_us ?fs \<noteq> 0 then (ucast (t - last_frame_us ?fs) :: 32 word)
             else of_nat (A2DP_LHDC_ENCODER_INTERVAL_MS * 1000)"
  let ?inc = "bytes_per_tick ?fs * ?us div of_nat (A2DP_LHDC_ENCODER_INTERVAL_MS * 1000)"
  let ?c1 = "counter ?fs + ?inc"
  let ?res = "?c1 div ?F"
  from assms have F: "?F \<noteq> 0"
    and prod: "unat (bytes_per_tick ?fs) * elapsed_us (last_frame_us ?fs) t < 2 ^ 32"
    and sum: "unat (counter ?fs) + earned_bytes cb t < 2 ^ 32"
    and frames: "(unat (counter ?fs) + earned_bytes cb t) div unat ?F < 256"
    by (simp_all add: tick_in_range_def)
  have mul: "unat (bytes_per_tick ?fs * ?us)
               = unat (bytes_per_tick ?fs) * elapsed_us (last_frame_us ?fs) t"
  proof (cases "last_frame_us ?fs \<noteq> 0")
    case True
    with prod show ?thesis by (simp add: elapsed_us_def us_product)
  next
    case False
    with prod show ?thesis
      by (simp add: elapsed_us_def A2DP_LHDC_ENCODER_INTERVAL_MS_def unat_word_ariths)
  qed
  have inc: "unat ?inc = earned_bytes cb t"
    unfolding earned_bytes_def unat_div mul [symmetric]
    by (simp add: A2DP_LHDC_ENCODER_INTERVAL_MS_def)
  have c1: "unat ?c1 = unat (counter ?fs) + earned_bytes cb t"
    using sum inc by (simp add: unat_word_ariths)
  have res: "unat ?res = (unat (counter ?fs) + earned_bytes cb t) div unat ?F"
    by (simp only: unat_div c1)
  have nof: "unat (ucast ?res :: 8 word) = unat ?res"
    using frames res by (simp add: unsigned_ucast_eq take_bit_nat_eq_self)
  have rest: "?c1 - ?res * ?F = ?c1 mod ?F"
    by (simp add: minus_div_mult_eq_mod)
  have eq: "unat (ucast ?res :: 8 word) * unat ?F + unat (?c1 - ?res * ?F)
              = unat (counter ?fs) + earned_bytes cb t"
    unfolding rest nof res unat_mod c1 by simp
  show ?thesis
    using F eq
    by (simp add: a2dp_lhdc_get_num_frame_iteration_def Let_def)
qed

lemma pace_ticks_budget:
  "ticks_in_range mbpf cb ts \<Longrightarrow>
     \<exists>cb' nofs. pace_ticks mbpf cb ts = Inr (cb', nofs)
       \<and> length nofs = length ts
       \<and> sum_list (map unat nofs) * unat (pcm_bytes_per_frame mbpf cb)
            + unat (counter (lhdc_feeding_state cb'))
          = unat (counter (lhdc_feeding_state cb))
            + earned_total (unat (bytes_per_tick (lhdc_feeding_state cb)))
                (last_frame_us (lhdc_feeding_state cb)) ts"
proof (induction ts arbitrary: cb)
  case Nil
  then show ?case by simp
next
  case (Cons t ts)
  from Cons.prems have range: "tick_in_range mbpf cb t" by simp
  from pacer_tick [OF range] obtain cb1 nof where
    run: "a2dp_lhdc_get_num_frame_iteration mbpf cb t = Inr (cb1, 1, nof)"
    and eq1: "unat nof * unat (pcm_bytes_per_frame mbpf cb) + unat (counter (lhdc_feeding_state cb1))
               = unat (counter (lhdc_feeding_state cb)) + earned_bytes cb t"
    and last1: "last_frame_us (lhdc_feeding_state cb1) = t"
    and bpt1: "bytes_per_tick (lhdc_feeding_state cb1) = bytes_per_tick (lhdc_feeding_state cb)"
    and fp1: "feeding_params cb1 = feeding_params cb"
    by blast
  from Cons.prems run have "ticks_in_range mbpf cb1 ts" by simp
  from Cons.IH [OF this] obtain cb2 nofs where
    run2: "pace_ticks mbpf cb1 ts = Inr (cb2, nofs)"
    and len2: "length nofs = length ts"
    and eq2: "sum_list (map unat nofs) * unat (pcm_bytes_per_frame mbpf cb1)
                + unat (counter (lhdc_feeding_state cb2))
              = unat (counter (lhdc_feeding_state cb1))
                + earned_total (unat (bytes_per_tick (lhdc_feeding_state cb1)))
                    (last_frame_us (lhdc_feeding_state cb1)) ts"
    by blast
  have F: "pcm_bytes_per_frame mbpf cb1 = pcm_bytes_per_frame mbpf cb"
    by (simp add: pcm_bytes_per_frame_def fp1)
  have "sum_list (map unat (nof # nofs)) * unat (pcm_bytes_per_frame mbpf cb)
          + unat (counter (lhdc_feeding_state cb2))
        = unat (counter (lhdc_feeding_state cb))
          + earned_total (unat (bytes_per_tick (lhdc_feeding_state cb)))
              (last_frame_us (lhdc_feeding_state cb)) (t # ts)"
    using eq1 eq2 unfolding F last1 bpt1
    by (simp add: earned_bytes_def algebra_simps)
  with run run2 len2 show ?case by simp
qed

text \<open>
  Claim C4. Every return of the pacing computation leaves the accumulator below the
  PCM byte size of one frame (and, being unsigned, at or above zero); the computation
  fails to return only when that size is zero, where the division traps.
\<close>

theorem pacer_counter_bound:
  "(case a2dp_lhdc_get_num_frame_iteration mbpf cb t of
      Inl f \<Rightarrow> f = DivisionByZero \<and> pcm_bytes_per_frame mbpf cb = 0
    | Inr (cb', noi, nof) \<Rightarrow>
        0 \<le> unat (counter (lhdc_feeding_state cb'))
        \<and> unat (counter (lhdc_feeding_state cb')) < unat (pcm_bytes_per_frame mbpf cb')
        \<and> pcm_bytes_per_frame mbpf cb' = pcm_bytes_per_frame mbpf cb)"
proof (cases "pcm_bytes_per_frame mbpf cb = 0")
  case True
  then show ?thesis
    by (simp add: a2dp_lhdc_get_num_frame_iteration_def Let_def)
next
  case False
  then have "0 < pcm_bytes_per_frame mbpf cb"
    by (simp add: word_neq_0_conv)
  then have "x mod pcm_bytes_per_frame mbpf cb < pcm_bytes_per_frame mbpf cb" for x
    by (rule word_mod_less_divisor)
  then have "unat (x mod pcm_bytes_per_frame mbpf cb) < unat (pcm_bytes_per_frame mbpf cb)" for x
    by (simp add: word_less_nat_alt)
  with False show ?thesis
    by (simp add: a2dp_lhdc_get_num_frame_iteration_def Let_def minus_div_mult_eq_mod
        pcm_bytes_per_frame_def)
qed

text \<open>
  Claim C3, as stated, fails: the budget of a tick is formed in 32 bits. After a tick
  at 1 s, a tick 400 ms later earns 230400 bytes at 11520 bytes per tick, yet the
  32-bit product \<open>11520 * 400000\<close> wraps and the pacer credits 15651. Eight frames of
  3072 bytes and a remainder of 2595 account for 27171 of the 241920 bytes earned.
\<close>

theorem pacer_conservation_counterexample:
  "pace_ticks A2DP_LHDC_MEDIA_BYTES_PER_FRAME cb_96k [1000000, 1400000]
     = Inr (cb_96k\<lparr>lhdc_feeding_state :=
                     \<lparr>counter = 2595, bytes_per_tick = 11520, last_frame_us = 1400000\<rparr>\<rparr>,
            [3, 5])
   \<and> unat (pcm_bytes_per_frame A2DP_LHDC_MEDIA_BYTES_PER_FRAME cb_96k) = 3072
   \<and> earned_total 11520 0 [1000000, 1400000] = 241920
   \<and> (3 + 5) * 3072 + 2595 + 214749 = earned_total 11520 0 [1000000, 1400000]"
  by (simp add: a2dp_lhdc_get_num_frame_iteration_def pcm_bytes_per_frame_def cb_96k_def
      A2DP_LHDC_MEDIA_BYTES_PER_FRAME_def A2DP_LHDC_ENCODER_INTERVAL_MS_def elapsed_us_def
      Let_def)

text \<open>
  Claim C3, amended. Over every sequence of ticks in which the 32-bit budget
  arithmetic does not wrap and every frame count fits the 8 bits it is returned in
  (\<open>ticks_in_range\<close>), the pacer returns at every tick, and the frames it reported, at the
  byte size of a frame, plus the final accumulator equal the initial accumulator plus
  the bytes earned, \<open>bytes_per_tick * elapsed_us div 20000\<close> summed over the ticks.
\<close>

theorem pacer_conservation:
  assumes "ticks_in_range mbpf cb ts"
  shows "\<exists>cb' nofs. pace_ticks mbpf cb ts = Inr (cb', nofs)
           \<and> length nofs = length ts
           \<and> sum_list (map unat nofs) * unat (pcm_bytes_per_frame mbpf cb)
                + unat (counter (lhdc_feeding_state cb'))
              = unat (counter (lhdc_feeding_state cb))
                + earned_total (unat (bytes_per_tick (lhdc_feeding_state cb)))
                    (last_frame_us (lhdc_feeding_state cb)) ts"
  using assms by (rule pace_ticks_budget)

theorem pacer_conservation_witness:
  "ticks_in_range A2DP_LHDC_MEDIA_BYTES_PER_FRAME cb_96k [1000000, 1020000, 1045000]
   \<and> (\<exists>cb' nofs.
         pace_ticks A2DP_LHDC_MEDIA_BYTES_PER_FRAME cb_96k [1000000, 1020000, 1045000]
           = Inr (cb', nofs)
         \<and> length nofs = 3
         \<and> sum_list (map unat nofs) * 3072 + unat (counter (lhdc_feeding_state cb'))
            = 0 + (11520 + 11520 + 14400))"
proof -
  have range: "ticks_in_range A2DP_LHDC_MEDIA_BYTES_PER_FRAME cb_96k [1000000, 1020000, 1045000]"
    by (simp add: tick_in_range_def earned_bytes_def a2dp_lhdc_get_num_frame_iteration_def
        pcm_bytes_per_frame_def cb_96k_def A2DP_LHDC_MEDIA_BYTES_PER_FRAME_def
        A2DP_LHDC_ENCODER_INTERVAL_MS_def elapsed_us_def Let_def)
  have bpf: "unat (pcm_bytes_per_frame A2DP_LHDC_MEDIA_BYTES_PER_FRAME cb_96k) = 3072"
    by (simp add: pcm_bytes_per_frame_def cb_96k_def A2DP_LHDC_MEDIA_BYTES_PER_FRAME_def)
  have earned: "earned_total (unat (bytes_per_tick (lhdc_feeding_state cb_96k)))
                  (last_frame_us (lhdc_feeding_state cb_96k)) [1000000, 1020000, 1045000]
                = 11520 + 11520 + 14400"
    by (simp add: cb_96k_def elapsed_us_def A2DP_LHDC_ENCODER_INTERVAL_MS_def)
  have start: "unat (counter (lhdc_feeding_state cb_96k)) = 0"
    by (simp add: cb_96k_def)
  from pacer_conservation [OF range]
  have "\<exists>cb' nofs.
         pace_ticks A2DP_LHDC_MEDIA_BYTES_PER_FRAME cb_96k [1000000, 1020000, 1045000]
           = Inr (cb', nofs)
         \<and> length nofs = 3
         \<and> sum_list (map unat nofs) * 3072 + unat (counter (lhdc_feeding_state cb'))
            = 0 + (11520 + 11520 + 14400)"
    unfolding bpf earned start by (simp del: pace_ticks.simps add: numeral_3_eq_3)
  with range show ?thesis by (rule conjI)
qed

subsection \<open>The copy loop\<close>

lemma unat_ucast_16_32: "unat (ucast (x :: 16 word) :: 32 word) = unat x"
proof -
  have "unat x < 2 ^ 16" using unsigned_less [of x] by simp
  then have "unat x < 2 ^ 32" by simp
  then show ?thesis
    by (simp add: unsigned_ucast_eq take_bit_nat_eq_self)
qed



lemma close_test:
  fixes mml :: "32 word" and x :: "16 word"
  shows "(mml \<le> ucast x) = (unat mml \<le> unat x)"
  by (simp add: word_le_nat_alt unat_ucast_16_32)






subsection \<open>The frame loop\<close>





lemma read_size_stats [simp]: "read_size K (cb\<lparr>stats := st\<rparr>) = read_size K cb"
  by (simp add: read_size_def)




lemma underflow_refund_0 [simp]: "underflow_refund K cb 0 = cb"
  by (simp add: underflow_refund_def)



subsection \<open>Emission and the whole tick\<close>







lemma underflow_refund_fields [simp]:
  "buf_seq (underflow_refund K cb j) = buf_seq cb"
  "timestamp (underflow_refund K cb j) = timestamp cb"
  "latency_mode_index (underflow_refund K cb j) = latency_mode_index cb"
  "TxAaMtuSize (underflow_refund K cb j) = TxAaMtuSize cb"
  "feeding_params (underflow_refund K cb j) = feeding_params cb"
  "stats (underflow_refund K cb j) = stats cb"
  "lhdc_handle (underflow_refund K cb j) = lhdc_handle cb"
  "has_lhdc_handle (underflow_refund K cb j) = has_lhdc_handle cb"
  by (simp_all add: underflow_refund_def)






lemma length_handed_over [simp]: "length (handed_over tag cb i bufs) = length bufs"
  by (simp add: handed_over_def)




text \<open>
  Facts for running the assembler on concrete inputs.
\<close>

lemmas assembler_defs =
  a2dp_lhdc_encode_frames_def a2dp_lhdc_read_feeding_def read_size_def max_mtu_len_def
  A2DP_LHDC_MPL_HDR_LEN_def copy_loop.simps copy_step_def store_bytes_def bt_buf_new_def
  A2DP_LHDC_OFFSET_def close_last_def emit_single_def underflow_refund_def
  seq_shifted_def frames_shifted_def or_into_def
  A2DP_LHDC_HDR_F_MSK_def A2DP_LHDC_HDR_S_MSK_def A2DP_LHDC_HDR_L_MSK_def Let_def

lemmas example_defs = K_ex_def E_ex_def w_ex_def cb_96k_def stats0_def




text \<open>The same tick, run: seven bytes under a cap of three leave as 3, 3 and 1.\<close>

lemma seven_bytes_cap_three:
  "map (\<lambda>p. (payload (fst p), len (fst p), snd p))
     (enqueues (snd (projr
        (a2dp_lhdc_encode_frames K_ex (E_ex (\<lambda>i. Stream [1, 2, 3, 4, 5, 6, 7]))
           (cb_96k\<lparr>TxAaMtuSize := 4\<rparr>, w_ex) 1))))
   = [([1, 2, 3], 3, 1), ([4, 5, 6], 3, 1), ([7], 1, 1)]"
  by (simp add: assembler_defs example_defs)

end
